theory Spec2Isabelle
  imports Main "HOL-Library.Word"
begin

unbundle bit_operations_syntax

section \<open>Data model of package mdasio\<close>

text \<open>
  Bytes are 8-bit words. Go's \<open>int\<close> is taken at its width on the 64-bit platforms
  (amd64, arm64): a 64-bit two's complement word, read with \<open>sint\<close>. A Go \<open>string\<close> is a
  sequence of bytes. A \<open>float32\<close> is identified with its IEEE-754 bit pattern:
  \<open>math.Float32bits\<close> and \<open>math.Float32frombits\<close> reinterpret the same 32 bits, and the
  package performs no floating-point arithmetic.
\<close>

type_synonym byte = "8 word"
type_synonym goint = "64 word"
type_synonym gostring = "byte list"

datatype float32 = Float32frombits (Float32bits: "32 word")

text \<open>
  Errors: the two errors \<open>io.ReadFull\<close> produces at the end of a stream, the package's
  own \<open>ErrNoFullWrite\<close>, and the errors of the write sink, which the package passes on
  unchanged (identified by a number).
\<close>

datatype err = EOF | ErrUnexpectedEOF | ErrNoFullWrite | SinkErr nat

text \<open>
  A call either returns or panics (index or slice out of range, negative \<open>make\<close>).
  An allocation of a non-negative size succeeds: running out of memory is not modelled.
\<close>

datatype 'a res = Ret 'a | Panic

record Unit =
  Id_unit :: gostring
  Name :: gostring
  Type :: gostring

record Point =
  Lat :: float32
  Lon :: float32

type_synonym Geometry = gostring

record GridHeader =
  N :: goint
  M :: goint
  MinLat :: float32
  MaxLat :: float32
  MinLon :: float32
  MaxLon :: float32
  StepLat :: float32
  StepLon :: float32

record Grid = GridHeader +
  Data :: "float32 list list"

text \<open>
  \<open>time.Time\<close> belongs to the standard library. It is represented by what the package
  observes of it: the whole seconds since the Unix epoch that \<open>Unix()\<close> returns, and the
  nanoseconds within that second (0 to 999999999, counted forwards also before the
  epoch). Location and monotonic clock reading are not part of the instant.
  \<open>time.Duration\<close> is an \<open>int64\<close>.
\<close>

record Time =
  unixSec :: "64 word"
  nsec :: nat

type_synonym Duration = "64 word"

definition Unix :: "Time \<Rightarrow> 64 word" where
  "Unix t = unixSec t"

text \<open>\<open>time.Unix(sec, 0)\<close>, the only form the package calls.\<close>

definition time_Unix :: "64 word \<Rightarrow> Time" where
  "time_Unix s = \<lparr>unixSec = s, nsec = 0\<rparr>"

definition zeroTime :: Time where
  "zeroTime = \<lparr>unixSec = - 62135596800, nsec = 0\<rparr>"

text \<open>
  The adapter. The read source \<open>r\<close> is an in-memory byte stream (the bytes not yet
  consumed), as \<open>bytes.Reader\<close> provides. The write sink is an object with a state \<open>w\<close>
  and a \<open>Write\<close> method \<open>w_Write\<close>, which returns the count it reports, its error and
  its next state; nothing is assumed of it. \<open>buf\<close> is the 8-byte scratch buffer.
\<close>

record 's MdasIO =
  r :: "byte list"
  w :: 's
  w_Write :: "'s \<Rightarrow> byte list \<Rightarrow> int \<times> err option \<times> 's"
  buf :: "byte list"

definition NewMdasIO :: "byte list \<Rightarrow> ('s \<Rightarrow> byte list \<Rightarrow> int \<times> err option \<times> 's) \<Rightarrow> 's \<Rightarrow> 's MdasIO" where
  "NewMdasIO rd wr ws = \<lparr>r = rd, w = ws, w_Write = wr, buf = replicate 8 0\<rparr>"

section \<open>Standard library: encoding/binary and io\<close>

text \<open>\<open>binary.LittleEndian\<close>: least significant byte first.\<close>

definition Uint16 :: "byte list \<Rightarrow> 16 word" where
  "Uint16 b = ucast (b ! 0) OR push_bit 8 (ucast (b ! 1))"

definition Uint32 :: "byte list \<Rightarrow> 32 word" where
  "Uint32 b = ucast (b ! 0) OR push_bit 8 (ucast (b ! 1)) OR push_bit 16 (ucast (b ! 2))
     OR push_bit 24 (ucast (b ! 3))"

definition Uint64 :: "byte list \<Rightarrow> 64 word" where
  "Uint64 b = ucast (b ! 0) OR push_bit 8 (ucast (b ! 1)) OR push_bit 16 (ucast (b ! 2))
     OR push_bit 24 (ucast (b ! 3)) OR push_bit 32 (ucast (b ! 4)) OR push_bit 40 (ucast (b ! 5))
     OR push_bit 48 (ucast (b ! 6)) OR push_bit 56 (ucast (b ! 7))"

definition PutUint16 :: "16 word \<Rightarrow> byte list" where
  "PutUint16 v = [ucast v, ucast (drop_bit 8 v)]"

definition PutUint32 :: "32 word \<Rightarrow> byte list" where
  "PutUint32 v = [ucast v, ucast (drop_bit 8 v), ucast (drop_bit 16 v), ucast (drop_bit 24 v)]"

definition PutUint64 :: "64 word \<Rightarrow> byte list" where
  "PutUint64 v = [ucast v, ucast (drop_bit 8 v), ucast (drop_bit 16 v), ucast (drop_bit 24 v),
     ucast (drop_bit 32 v), ucast (drop_bit 40 v), ucast (drop_bit 48 v), ucast (drop_bit 56 v)]"

text \<open>
  \<open>io.ReadFull\<close> on the stream \<open>s\<close> into a buffer of \<open>k\<close> bytes: the bytes stored at the
  front of the buffer, the error, and the rest of the stream. A buffer of length 0 is
  filled at once; an empty stream gives \<open>io.EOF\<close>; a stream that ends inside the buffer
  gives \<open>io.ErrUnexpectedEOF\<close> after its bytes were stored.
\<close>

definition ReadFull :: "byte list \<Rightarrow> nat \<Rightarrow> byte list \<times> err option \<times> byte list" where
  "ReadFull s k =
     (if k = 0 then ([], None, s)
      else if s = [] then ([], Some EOF, s)
      else if length s < k then (s, Some ErrUnexpectedEOF, [])
      else (take k s, None, drop k s))"

text \<open>\<open>io.ReadFull(m.r, m.buf[:k])\<close>: the bytes read overwrite the front of \<open>buf\<close>.\<close>

definition readBuf :: "'s MdasIO \<Rightarrow> nat \<Rightarrow> err option \<times> 's MdasIO" where
  "readBuf m k =
     (case ReadFull (r m) k of
        (d, e, s') \<Rightarrow> (e, m\<lparr>r := s', buf := d @ drop (length d) (buf m)\<rparr>))"

text \<open>Storing \<open>bs\<close> at the front of \<open>buf\<close> (\<open>PutUintNN(m.buf[:k], v)\<close>).\<close>

definition putBuf :: "'s MdasIO \<Rightarrow> byte list \<Rightarrow> 's MdasIO" where
  "putBuf m bs = m\<lparr>buf := bs @ drop (length bs) (buf m)\<rparr>"

text \<open>\<open>m.w.Write(b)\<close>: one call of the sink.\<close>

definition sinkWrite :: "'s MdasIO \<Rightarrow> byte list \<Rightarrow> int \<times> err option \<times> 's MdasIO" where
  "sinkWrite m b = (case w_Write m (w m) b of (n, e, s') \<Rightarrow> (n, e, m\<lparr>w := s'\<rparr>))"

section \<open>Decoding\<close>

definition ReadBool :: "'s MdasIO \<Rightarrow> bool \<times> err option \<times> 's MdasIO" where
  "ReadBool m =
     (case readBuf m 1 of
        (Some e, m') \<Rightarrow> (False, Some e, m')
      | (None, m') \<Rightarrow> (buf m' ! 0 \<noteq> 0, None, m'))"

definition ReadInt16 :: "'s MdasIO \<Rightarrow> 16 word \<times> err option \<times> 's MdasIO" where
  "ReadInt16 m =
     (case readBuf m 2 of
        (Some e, m') \<Rightarrow> (0, Some e, m')
      | (None, m') \<Rightarrow> (Uint16 (take 2 (buf m')), None, m'))"

text \<open>\<open>int(binary.LittleEndian.Uint32(...))\<close>: the conversion from \<open>uint32\<close> to the
  64-bit \<open>int\<close> extends with zeros.\<close>

definition ReadInt :: "'s MdasIO \<Rightarrow> goint \<times> err option \<times> 's MdasIO" where
  "ReadInt m =
     (case readBuf m 4 of
        (Some e, m') \<Rightarrow> (0, Some e, m')
      | (None, m') \<Rightarrow> (ucast (Uint32 (take 4 (buf m'))), None, m'))"

definition ReadInt64 :: "'s MdasIO \<Rightarrow> 64 word \<times> err option \<times> 's MdasIO" where
  "ReadInt64 m =
     (case readBuf m 8 of
        (Some e, m') \<Rightarrow> (0, Some e, m')
      | (None, m') \<Rightarrow> (Uint64 (take 8 (buf m')), None, m'))"

definition ReadFloat :: "'s MdasIO \<Rightarrow> float32 \<times> err option \<times> 's MdasIO" where
  "ReadFloat m =
     (case readBuf m 4 of
        (Some e, m') \<Rightarrow> (Float32frombits 0, Some e, m')
      | (None, m') \<Rightarrow> (Float32frombits (Uint32 (take 4 (buf m'))), None, m'))"

text \<open>\<open>make([]byte, strLen)\<close> panics on a negative length; the body is read into the
  new buffer, not into \<open>buf\<close>.\<close>

definition ReadString :: "'s MdasIO \<Rightarrow> (gostring \<times> err option \<times> 's MdasIO) res" where
  "ReadString m =
     (case ReadInt m of
        (strLen, Some e, m1) \<Rightarrow> Ret ([], Some e, m1)
      | (strLen, None, m1) \<Rightarrow>
          if sint strLen < 0 then Panic
          else (case ReadFull (r m1) (nat (sint strLen)) of
                  (newBuf, Some e, s') \<Rightarrow> Ret ([], Some e, m1\<lparr>r := s'\<rparr>)
                | (newBuf, None, s') \<Rightarrow> Ret (newBuf, None, m1\<lparr>r := s'\<rparr>)))"

definition ReadDate :: "'s MdasIO \<Rightarrow> Time \<times> err option \<times> 's MdasIO" where
  "ReadDate m =
     (case ReadInt64 m of
        (s, Some e, m') \<Rightarrow> (zeroTime, Some e, m')
      | (s, None, m') \<Rightarrow> (time_Unix s, None, m'))"





definition zeroUnit :: Unit where
  "zeroUnit = \<lparr>Id_unit = [], Name = [], Type = []\<rparr>"

definition ReadUnit :: "'s MdasIO \<Rightarrow> (Unit \<times> err option \<times> 's MdasIO) res" where
  "ReadUnit m =
     (case ReadString m of
        Panic \<Rightarrow> Panic
      | Ret (a, Some e, m1) \<Rightarrow> Ret (zeroUnit\<lparr>Id_unit := a\<rparr>, Some e, m1)
      | Ret (a, None, m1) \<Rightarrow>
          (case ReadString m1 of
             Panic \<Rightarrow> Panic
           | Ret (b, Some e, m2) \<Rightarrow> Ret (zeroUnit\<lparr>Id_unit := a, Name := b\<rparr>, Some e, m2)
           | Ret (b, None, m2) \<Rightarrow>
               (case ReadString m2 of
                  Panic \<Rightarrow> Panic
                | Ret (c, Some e, m3) \<Rightarrow>
                    Ret (zeroUnit\<lparr>Id_unit := a, Name := b, Type := c\<rparr>, Some e, m3)
                | Ret (c, None, m3) \<Rightarrow>
                    Ret (zeroUnit\<lparr>Id_unit := a, Name := b, Type := c\<rparr>, None, m3))))"

text \<open>
  The inner loop of \<open>ReadGrid\<close>: entry \<open>j\<close> of the new row is decoded from
  \<open>m.buf[4*j : 4*j+4]\<close>, a slice of the scratch buffer, which panics when \<open>4*j+4\<close>
  exceeds its capacity. The row starts as \<open>make([]float32, grid.M)\<close>.
\<close>

function decodeRow :: "byte list \<Rightarrow> nat \<Rightarrow> nat \<Rightarrow> float32 list \<Rightarrow> float32 list res" where
  "decodeRow sb cols j row =
     (if j < cols then
        (if 4 * j + 4 \<le> length sb
         then decodeRow sb cols (j + 1)
                (row[j := Float32frombits (Uint32 (take 4 (drop (4 * j) sb)))])
         else Panic)
      else Ret row)"
  by pat_completeness auto
termination
  by (relation "measure (\<lambda>(sb, cols, j, row). cols - j)") auto

text \<open>
  The row loop of \<open>ReadGrid\<close>: \<open>io.ReadFull(m.r, rowBuf)\<close> with \<open>rowBuf\<close> of
  \<open>rowLen\<close> bytes, then the inner loop over the scratch buffer \<open>buf\<close>. The bytes read
  into \<open>rowBuf\<close> are not looked at again by the source.
\<close>

function readRows :: "'s MdasIO \<Rightarrow> Grid \<Rightarrow> nat \<Rightarrow> nat \<Rightarrow> (Grid \<times> err option \<times> 's MdasIO) res" where
  "readRows m g rowLen i =
     (if int i < sint (N g) then
        (case ReadFull (r m) rowLen of
           (d, Some e, s') \<Rightarrow> Ret (g, Some e, m\<lparr>r := s'\<rparr>)
         | (d, None, s') \<Rightarrow>
             (case decodeRow (buf m) (nat (sint (M g))) 0
                     (replicate (nat (sint (M g))) (Float32frombits 0)) of
                Panic \<Rightarrow> Panic
              | Ret row \<Rightarrow> readRows (m\<lparr>r := s'\<rparr>) (g\<lparr>Data := (Data g)[i := row]\<rparr>) rowLen (i + 1)))
      else Ret (g, None, m))"
  by pat_completeness auto
termination
  by (relation "measure (\<lambda>(m, g, rowLen, i). nat (sint (N g)) - i)") auto

definition zeroGrid :: Grid where
  "zeroGrid = \<lparr>N = 0, M = 0, MinLat = Float32frombits 0, MaxLat = Float32frombits 0,
     MinLon = Float32frombits 0, MaxLon = Float32frombits 0, StepLat = Float32frombits 0,
     StepLon = Float32frombits 0, Data = []\<rparr>"

definition ReadGrid :: "'s MdasIO \<Rightarrow> (Grid \<times> err option \<times> 's MdasIO) res" where
  "ReadGrid m =
     (case ReadInt m of (v1, e1, m1) \<Rightarrow>
      let g1 = zeroGrid\<lparr>N := v1\<rparr> in
      if e1 \<noteq> None then Ret (g1, e1, m1) else
     (case ReadInt m1 of (v2, e2, m2) \<Rightarrow>
      let g2 = g1\<lparr>M := v2\<rparr> in
      if e2 \<noteq> None then Ret (g2, e2, m2) else
     (case ReadFloat m2 of (v3, e3, m3) \<Rightarrow>
      let g3 = g2\<lparr>MinLat := v3\<rparr> in
      if e3 \<noteq> None then Ret (g3, e3, m3) else
     (case ReadFloat m3 of (v4, e4, m4) \<Rightarrow>
      let g4 = g3\<lparr>MaxLat := v4\<rparr> in
      if e4 \<noteq> None then Ret (g4, e4, m4) else
     (case ReadFloat m4 of (v5, e5, m5) \<Rightarrow>
      let g5 = g4\<lparr>MinLon := v5\<rparr> in
      if e5 \<noteq> None then Ret (g5, e5, m5) else
     (case ReadFloat m5 of (v6, e6, m6) \<Rightarrow>
      let g6 = g5\<lparr>MaxLon := v6\<rparr> in
      if e6 \<noteq> None then Ret (g6, e6, m6) else
     (case ReadFloat m6 of (v7, e7, m7) \<Rightarrow>
      let g7 = g6\<lparr>StepLat := v7\<rparr> in
      if e7 \<noteq> None then Ret (g7, e7, m7) else
     (case ReadFloat m7 of (v8, e8, m8) \<Rightarrow>
      let g8 = g7\<lparr>StepLon := v8\<rparr> in
      if e8 \<noteq> None then Ret (g8, e8, m8) else
      if sint (4 * M g8) < 0 \<or> sint (N g8) < 0 then Panic
      else readRows m8 (g8\<lparr>Data := replicate (nat (sint (N g8))) []\<rparr>)
             (nat (sint (4 * M g8))) 0))))))))"

section \<open>Encoding\<close>

text \<open>
  Each fixed-width write stores the bytes at the front of \<open>buf\<close>, calls the sink once
  and compares the count it reports with the width.
\<close>

definition WriteBool :: "'s MdasIO \<Rightarrow> bool \<Rightarrow> err option \<times> 's MdasIO" where
  "WriteBool m v =
     (let m0 = putBuf m [if v then 1 else 0] in
      case sinkWrite m0 (take 1 (buf m0)) of
        (n, Some e, m') \<Rightarrow> (Some e, m')
      | (n, None, m') \<Rightarrow> if n \<noteq> 1 then (Some ErrNoFullWrite, m') else (None, m'))"

definition WriteInt16 :: "'s MdasIO \<Rightarrow> 16 word \<Rightarrow> err option \<times> 's MdasIO" where
  "WriteInt16 m v =
     (let m0 = putBuf m (PutUint16 v) in
      case sinkWrite m0 (take 2 (buf m0)) of
        (n, Some e, m') \<Rightarrow> (Some e, m')
      | (n, None, m') \<Rightarrow> if n \<noteq> 2 then (Some ErrNoFullWrite, m') else (None, m'))"

text \<open>\<open>uint32(v)\<close> keeps the low 32 bits of the \<open>int\<close>.\<close>

definition WriteInt :: "'s MdasIO \<Rightarrow> goint \<Rightarrow> err option \<times> 's MdasIO" where
  "WriteInt m v =
     (let m0 = putBuf m (PutUint32 (ucast v)) in
      case sinkWrite m0 (take 4 (buf m0)) of
        (n, Some e, m') \<Rightarrow> (Some e, m')
      | (n, None, m') \<Rightarrow> if n \<noteq> 4 then (Some ErrNoFullWrite, m') else (None, m'))"

definition WriteInt64 :: "'s MdasIO \<Rightarrow> 64 word \<Rightarrow> err option \<times> 's MdasIO" where
  "WriteInt64 m v =
     (let m0 = putBuf m (PutUint64 v) in
      case sinkWrite m0 (take 8 (buf m0)) of
        (n, Some e, m') \<Rightarrow> (Some e, m')
      | (n, None, m') \<Rightarrow> if n \<noteq> 8 then (Some ErrNoFullWrite, m') else (None, m'))"

definition WriteFloat :: "'s MdasIO \<Rightarrow> float32 \<Rightarrow> err option \<times> 's MdasIO" where
  "WriteFloat m v =
     (let m0 = putBuf m (PutUint32 (Float32bits v)) in
      case sinkWrite m0 (take 4 (buf m0)) of
        (n, Some e, m') \<Rightarrow> (Some e, m')
      | (n, None, m') \<Rightarrow> if n \<noteq> 4 then (Some ErrNoFullWrite, m') else (None, m'))"

text \<open>
  \<open>writeAll\<close> may run forever: not returning is the value \<open>None\<close>. \<open>b = b[n:]\<close> panics
  when the count the sink reports is negative or larger than \<open>len(b)\<close>.
\<close>

partial_function (option) writeAll :: "'s MdasIO \<Rightarrow> byte list \<Rightarrow> (err option \<times> 's MdasIO) res option" where
  "writeAll m b =
     (if length b > 0 then
        (case sinkWrite m b of
           (n, Some e, m') \<Rightarrow> Some (Ret (Some e, m'))
         | (n, None, m') \<Rightarrow>
             if n < 0 \<or> int (length b) < n then Some Panic
             else writeAll m' (drop (nat n) b))
      else Some (Ret (None, m)))"

definition WriteString :: "'s MdasIO \<Rightarrow> gostring \<Rightarrow> (err option \<times> 's MdasIO) res option" where
  "WriteString m v =
     (case WriteInt m (of_nat (length v)) of
        (Some e, m') \<Rightarrow> Some (Ret (Some e, m'))
      | (None, m') \<Rightarrow> writeAll m' v)"

definition WriteDate :: "'s MdasIO \<Rightarrow> Time \<Rightarrow> err option \<times> 's MdasIO" where
  "WriteDate m v = WriteInt64 m (Unix v)"

definition WriteDuration :: "'s MdasIO \<Rightarrow> Duration \<Rightarrow> err option \<times> 's MdasIO" where
  "WriteDuration m v = WriteInt64 m v"

definition WritePoint :: "'s MdasIO \<Rightarrow> Point \<Rightarrow> err option \<times> 's MdasIO" where
  "WritePoint m v =
     (case WriteFloat m (Lat v) of
        (Some e, m') \<Rightarrow> (Some e, m')
      | (None, m') \<Rightarrow> WriteFloat m' (Lon v))"

definition WriteGeometry :: "'s MdasIO \<Rightarrow> Geometry \<Rightarrow> (err option \<times> 's MdasIO) res option" where
  "WriteGeometry m v = WriteString m v"

text \<open>
  The inner loop of \<open>WriteGrid\<close>: \<open>PutUint32(rowBuf[4*j:4*j+4], Float32bits(v.Data[i][j]))\<close>.
  The slice of \<open>rowBuf\<close> and both indexings of \<open>Data\<close> are checked by the runtime only.
\<close>

function encodeRow :: "float32 list list \<Rightarrow> nat \<Rightarrow> nat \<Rightarrow> nat \<Rightarrow> byte list \<Rightarrow> byte list res" where
  "encodeRow dat i cols j rowBuf =
     (if j < cols then
        (if 4 * j + 4 \<le> length rowBuf \<and> i < length dat \<and> j < length (dat ! i)
         then encodeRow dat i cols (j + 1)
                (take (4 * j) rowBuf @ PutUint32 (Float32bits (dat ! i ! j)) @ drop (4 * j + 4) rowBuf)
         else Panic)
      else Ret rowBuf)"
  by pat_completeness auto
termination
  by (relation "measure (\<lambda>(dat, i, cols, j, rowBuf). cols - j)") auto

function writeRows :: "'s MdasIO \<Rightarrow> Grid \<Rightarrow> nat \<Rightarrow> byte list \<Rightarrow> (err option \<times> 's MdasIO) res option" where
  "writeRows m v i rowBuf =
     (if int i < sint (N v) then
        (case encodeRow (Data v) i (nat (sint (M v))) 0 rowBuf of
           Panic \<Rightarrow> Some Panic
         | Ret rb \<Rightarrow>
             (case writeAll m rb of
                None \<Rightarrow> None
              | Some Panic \<Rightarrow> Some Panic
              | Some (Ret (Some e, m')) \<Rightarrow> Some (Ret (Some e, m'))
              | Some (Ret (None, m')) \<Rightarrow> writeRows m' v (i + 1) rb))
      else Some (Ret (None, m)))"
  by pat_completeness auto
termination
  by (relation "measure (\<lambda>(m, v, i, rowBuf). nat (sint (N v)) - i)") auto

definition WriteGrid :: "'s MdasIO \<Rightarrow> Grid \<Rightarrow> (err option \<times> 's MdasIO) res option" where
  "WriteGrid m v =
     (case WriteInt m (N v) of (Some e, m') \<Rightarrow> Some (Ret (Some e, m')) | (None, m1) \<Rightarrow>
     (case WriteInt m1 (M v) of (Some e, m') \<Rightarrow> Some (Ret (Some e, m')) | (None, m2) \<Rightarrow>
     (case WriteFloat m2 (MinLat v) of (Some e, m') \<Rightarrow> Some (Ret (Some e, m')) | (None, m3) \<Rightarrow>
     (case WriteFloat m3 (MaxLat v) of (Some e, m') \<Rightarrow> Some (Ret (Some e, m')) | (None, m4) \<Rightarrow>
     (case WriteFloat m4 (MinLon v) of (Some e, m') \<Rightarrow> Some (Ret (Some e, m')) | (None, m5) \<Rightarrow>
     (case WriteFloat m5 (MaxLon v) of (Some e, m') \<Rightarrow> Some (Ret (Some e, m')) | (None, m6) \<Rightarrow>
     (case WriteFloat m6 (StepLat v) of (Some e, m') \<Rightarrow> Some (Ret (Some e, m')) | (None, m7) \<Rightarrow>
     (case WriteFloat m7 (StepLon v) of (Some e, m') \<Rightarrow> Some (Ret (Some e, m')) | (None, m8) \<Rightarrow>
        if sint (4 * M v) < 0 then Some Panic
        else writeRows m8 v 0 (replicate (nat (sint (4 * M v))) 0)))))))))"

section \<open>Sinks\<close>

text \<open>An in-memory sink, as \<open>bytes.Buffer\<close>: every write is accepted whole and appended.\<close>

definition bufferWrite :: "byte list \<Rightarrow> byte list \<Rightarrow> int \<times> err option \<times> byte list" where
  "bufferWrite s b = (int (length b), None, s @ b)"

text \<open>The bytes appended to an in-memory sink between two states of the adapter.\<close>

definition written :: "byte list MdasIO \<Rightarrow> byte list MdasIO \<Rightarrow> byte list" where
  "written m m' = drop (length (w m)) (w m')"




text \<open>A sink that reports zero bytes and no error on every call, and counts the calls.\<close>

definition zeroWrite :: "nat \<Rightarrow> byte list \<Rightarrow> int \<times> err option \<times> nat" where
  "zeroWrite s b = (0, None, s + 1)"

text \<open>
  A sink that reports zero bytes and no error on its first call and takes everything
  from then on; the state tells whether the first call is over and keeps the bytes taken.
\<close>

definition stallOnce :: "bool \<times> byte list \<Rightarrow> byte list \<Rightarrow> int \<times> err option \<times> (bool \<times> byte list)" where
  "stallOnce s b =
     (if \<not> fst s then (0, None, (True, snd s))
      else (int (length b), None, (True, snd s @ b)))"

section \<open>Notions used in the statements\<close>

text \<open>
  Modelled from the spec: the package has no encoder for \<open>Unit\<close> (only \<open>ReadUnit\<close>).
  The wire format gives a Unit as String id, String name, String type, so an encoded
  Unit is what three calls of \<open>WriteString\<close> in that order produce.
\<close>

definition WriteUnit :: "'s MdasIO \<Rightarrow> Unit \<Rightarrow> (err option \<times> 's MdasIO) res option" where
  "WriteUnit m u =
     (case WriteString m (Id_unit u) of
        Some (Ret (None, m1)) \<Rightarrow>
          (case WriteString m1 (Name u) of
             Some (Ret (None, m2)) \<Rightarrow> WriteString m2 (Type u)
           | x \<Rightarrow> x)
      | x \<Rightarrow> x)"

text \<open>The error of \<open>io.ReadFull\<close> on a stream \<open>s\<close> that ends before the buffer is full.\<close>

definition trunc :: "byte list \<Rightarrow> err" where
  "trunc s = (if s = [] then EOF else ErrUnexpectedEOF)"

text \<open>
  The bytes of a length-prefixed string: what \<open>WriteString\<close> appends to a sink that
  accepts them (lemma \<open>WriteString_buffer\<close>).
\<close>

definition encString :: "gostring \<Rightarrow> byte list" where
  "encString v = PutUint32 (of_nat (length v)) @ v"

text \<open>A new adapter that reads the bytes \<open>s\<close> and writes to an empty in-memory sink.\<close>

definition fresh :: "byte list \<Rightarrow> byte list MdasIO" where
  "fresh s = NewMdasIO s bufferWrite []"

text \<open>Sample values.\<close>

definition unitA :: Unit where
  "unitA = \<lparr>Id_unit = [117, 49], Name = [], Type = [0]\<rparr>"

definition unitB :: Unit where
  "unitB = \<lparr>Id_unit = [117, 50], Name = [110], Type = []\<rparr>"

text \<open>The equations of the four loops are applied explicitly, one iteration at a time.\<close>

declare decodeRow.simps [simp del]

declare readRows.simps [simp del]

declare encodeRow.simps [simp del]

declare writeRows.simps [simp del]

text \<open>The bytes of the eight header scalars of a grid, in the order \<open>WriteGrid\<close> writes them.\<close>

definition gridHeaderBytes :: "Grid \<Rightarrow> byte list" where
  "gridHeaderBytes v = PutUint32 (ucast (N v)) @ PutUint32 (ucast (M v))
     @ PutUint32 (Float32bits (MinLat v)) @ PutUint32 (Float32bits (MaxLat v))
     @ PutUint32 (Float32bits (MinLon v)) @ PutUint32 (Float32bits (MaxLon v))
     @ PutUint32 (Float32bits (StepLat v)) @ PutUint32 (Float32bits (StepLon v))"

text \<open>The bytes of the first \<open>cols\<close> entries of a row.\<close>

definition rowBytes :: "nat \<Rightarrow> float32 list \<Rightarrow> byte list" where
  "rowBytes cols row = concat (map (\<lambda>x. PutUint32 (Float32bits x)) (take cols row))"


definition gridSpec :: Grid where
  "gridSpec = \<lparr>N = 2, M = 3,
     MinLat = Float32frombits 0xC1200000, MaxLat = Float32frombits 0x41200000,
     MinLon = Float32frombits 0, MaxLon = Float32frombits 0x41A00000,
     StepLat = Float32frombits 0x3F800000, StepLon = Float32frombits 0x40000000,
     Data = [[Float32frombits 0x3F800000, Float32frombits 0x40000000, Float32frombits 0x40400000],
             [Float32frombits 0x40800000, Float32frombits 0x40A00000, Float32frombits 0x40C00000]]\<rparr>"

definition gridSpecBytes :: "byte list" where
  "gridSpecBytes =
     [2, 0, 0, 0, 3, 0, 0, 0,
      0, 0, 0x20, 0xC1, 0, 0, 0x20, 0x41, 0, 0, 0, 0, 0, 0, 0xA0, 0x41,
      0, 0, 0x80, 0x3F, 0, 0, 0, 0x40,
      0, 0, 0x80, 0x3F, 0, 0, 0, 0x40, 0, 0, 0x40, 0x40,
      0, 0, 0x80, 0x40, 0, 0, 0xA0, 0x40, 0, 0, 0xC0, 0x40]"


definition gridOne :: Grid where
  "gridOne = \<lparr>N = 1, M = 1,
     MinLat = Float32frombits 0xC1200000, MaxLat = Float32frombits 0x41200000,
     MinLon = Float32frombits 0, MaxLon = Float32frombits 0x41A00000,
     StepLat = Float32frombits 0x3F800000, StepLon = Float32frombits 0x40000000,
     Data = [[Float32frombits 0x3F800000]]\<rparr>"

definition gridOneBytes :: "byte list" where
  "gridOneBytes =
     [1, 0, 0, 0, 1, 0, 0, 0,
      0, 0, 0x20, 0xC1, 0, 0, 0x20, 0x41, 0, 0, 0, 0, 0, 0, 0xA0, 0x41,
      0, 0, 0x80, 0x3F, 0, 0, 0, 0x40,
      0, 0, 0x80, 0x3F]"







section \<open>Basic facts\<close>

lemma byte_at: "k + 8 \<le> LENGTH('a::len) \<Longrightarrow>
   bit (push_bit k (ucast (ucast (drop_bit k (v::'a word)) :: 8 word)) :: 'a word) n = (k \<le> n \<and> n < k + 8 \<and> bit v n)"
  by (auto simp add: bit_simps)

lemma byte_at0: "8 \<le> LENGTH('a::len) \<Longrightarrow>
   bit (ucast (ucast (v::'a word) :: 8 word) :: 'a word) n = (n < 8 \<and> bit v n)"
  by (auto simp add: bit_simps)

lemma Uint16_PutUint16: "Uint16 (PutUint16 v) = v"
  unfolding Uint16_def PutUint16_def
  apply (rule bit_word_eqI)
  apply (simp add: bit_or_iff byte_at byte_at0)
  apply (auto simp add: not_less)
  done

lemma Uint32_PutUint32: "Uint32 (PutUint32 v) = v"
  unfolding Uint32_def PutUint32_def
  apply (rule bit_word_eqI)
  apply (simp add: bit_or_iff byte_at byte_at0)
  apply (auto simp add: not_less)
  done

lemma Uint64_PutUint64: "Uint64 (PutUint64 v) = v"
  unfolding Uint64_def PutUint64_def
  apply (rule bit_word_eqI)
  apply (simp add: bit_or_iff byte_at byte_at0)
  apply (auto simp add: not_less)
  done

lemma length_PutUint16: "length (PutUint16 v) = 2"
  by (simp add: PutUint16_def)

lemma length_PutUint32: "length (PutUint32 v) = 4"
  by (simp add: PutUint32_def)

lemma length_PutUint64: "length (PutUint64 v) = 8"
  by (simp add: PutUint64_def)

lemma ReadFull_exact: "length d = k \<Longrightarrow> ReadFull (d @ rest) k = (d, None, rest)"
  by (auto simp add: ReadFull_def)

lemma ReadFull_short:
  "length s < k \<Longrightarrow> ReadFull s k = (s, Some (if s = [] then EOF else ErrUnexpectedEOF), [])"
  by (simp add: ReadFull_def)

lemma readBuf_exact:
  "r m = d @ rest \<Longrightarrow> length d = k \<Longrightarrow>
   readBuf m k = (None, m\<lparr>r := rest, buf := d @ drop k (buf m)\<rparr>)"
  by (simp add: readBuf_def ReadFull_exact)

lemma readBuf_short:
  "length (r m) < k \<Longrightarrow>
   readBuf m k = (Some (if r m = [] then EOF else ErrUnexpectedEOF),
                  m\<lparr>r := [], buf := r m @ drop (length (r m)) (buf m)\<rparr>)"
  by (simp add: readBuf_def ReadFull_short)

lemma ReadBool_exact:
  "r m = x # rest \<Longrightarrow> ReadBool m = (x \<noteq> 0, None, m\<lparr>r := rest, buf := x # drop 1 (buf m)\<rparr>)"
  using readBuf_exact [of m "[x]" rest 1] by (simp add: ReadBool_def)

lemma ReadInt16_exact:
  "r m = d @ rest \<Longrightarrow> length d = 2 \<Longrightarrow>
   ReadInt16 m = (Uint16 d, None, m\<lparr>r := rest, buf := d @ drop 2 (buf m)\<rparr>)"
  by (simp add: ReadInt16_def readBuf_exact)

lemma ReadInt_exact:
  "r m = d @ rest \<Longrightarrow> length d = 4 \<Longrightarrow>
   ReadInt m = (ucast (Uint32 d), None, m\<lparr>r := rest, buf := d @ drop 4 (buf m)\<rparr>)"
  by (simp add: ReadInt_def readBuf_exact)

lemma ReadInt64_exact:
  "r m = d @ rest \<Longrightarrow> length d = 8 \<Longrightarrow>
   ReadInt64 m = (Uint64 d, None, m\<lparr>r := rest, buf := d @ drop 8 (buf m)\<rparr>)"
  by (simp add: ReadInt64_def readBuf_exact)

lemma ReadFloat_exact:
  "r m = d @ rest \<Longrightarrow> length d = 4 \<Longrightarrow>
   ReadFloat m = (Float32frombits (Uint32 d), None, m\<lparr>r := rest, buf := d @ drop 4 (buf m)\<rparr>)"
  by (simp add: ReadFloat_def readBuf_exact)

lemma ReadBool_short:
  "length (r m) < 1 \<Longrightarrow> ReadBool m = (False, Some EOF, m\<lparr>r := [], buf := buf m\<rparr>)"
  by (simp add: ReadBool_def readBuf_short)

lemma ReadInt16_short:
  "length (r m) < 2 \<Longrightarrow>
   ReadInt16 m = (0, Some (if r m = [] then EOF else ErrUnexpectedEOF),
                  m\<lparr>r := [], buf := r m @ drop (length (r m)) (buf m)\<rparr>)"
  by (simp add: ReadInt16_def readBuf_short)

lemma ReadInt_short:
  "length (r m) < 4 \<Longrightarrow>
   ReadInt m = (0, Some (if r m = [] then EOF else ErrUnexpectedEOF),
                m\<lparr>r := [], buf := r m @ drop (length (r m)) (buf m)\<rparr>)"
  by (simp add: ReadInt_def readBuf_short)

lemma ReadInt64_short:
  "length (r m) < 8 \<Longrightarrow>
   ReadInt64 m = (0, Some (if r m = [] then EOF else ErrUnexpectedEOF),
                  m\<lparr>r := [], buf := r m @ drop (length (r m)) (buf m)\<rparr>)"
  by (simp add: ReadInt64_def readBuf_short)

lemma ReadFloat_short:
  "length (r m) < 4 \<Longrightarrow>
   ReadFloat m = (Float32frombits 0, Some (if r m = [] then EOF else ErrUnexpectedEOF),
                  m\<lparr>r := [], buf := r m @ drop (length (r m)) (buf m)\<rparr>)"
  by (simp add: ReadFloat_def readBuf_short)

lemma sinkWrite_buffer:
  "w_Write m = bufferWrite \<Longrightarrow> sinkWrite m b = (int (length b), None, m\<lparr>w := w m @ b\<rparr>)"
  by (simp add: sinkWrite_def bufferWrite_def)

lemma WriteBool_buffer:
  "w_Write m = bufferWrite \<Longrightarrow>
   WriteBool m v = (None, m\<lparr>buf := (if v then 1 else 0) # drop 1 (buf m),
                             w := w m @ [if v then 1 else 0]\<rparr>)"
  by (simp add: WriteBool_def putBuf_def sinkWrite_buffer)

lemma WriteInt16_buffer:
  "w_Write m = bufferWrite \<Longrightarrow>
   WriteInt16 m v = (None, m\<lparr>buf := PutUint16 v @ drop 2 (buf m), w := w m @ PutUint16 v\<rparr>)"
  by (simp add: WriteInt16_def putBuf_def sinkWrite_buffer length_PutUint16)

lemma WriteInt_buffer:
  "w_Write m = bufferWrite \<Longrightarrow>
   WriteInt m v = (None, m\<lparr>buf := PutUint32 (ucast v) @ drop 4 (buf m),
                            w := w m @ PutUint32 (ucast v)\<rparr>)"
  by (simp add: WriteInt_def putBuf_def sinkWrite_buffer length_PutUint32)

lemma WriteInt64_buffer:
  "w_Write m = bufferWrite \<Longrightarrow>
   WriteInt64 m v = (None, m\<lparr>buf := PutUint64 v @ drop 8 (buf m), w := w m @ PutUint64 v\<rparr>)"
  by (simp add: WriteInt64_def putBuf_def sinkWrite_buffer length_PutUint64)

lemma WriteFloat_buffer:
  "w_Write m = bufferWrite \<Longrightarrow>
   WriteFloat m v = (None, m\<lparr>buf := PutUint32 (Float32bits v) @ drop 4 (buf m),
                              w := w m @ PutUint32 (Float32bits v)\<rparr>)"
  by (simp add: WriteFloat_def putBuf_def sinkWrite_buffer length_PutUint32)

lemma writeAll_buffer:
  "w_Write m = bufferWrite \<Longrightarrow> writeAll m b = Some (Ret (None, m\<lparr>w := w m @ b\<rparr>))"
  by (subst writeAll.simps, subst writeAll.simps) (simp add: sinkWrite_buffer)

lemma ucast_of_nat_64_32: "(ucast (of_nat n :: 64 word) :: 32 word) = of_nat n"
  by (rule bit_word_eqI) (auto simp add: bit_simps)

lemma unat_of_nat_32: "n < 2 ^ 32 \<Longrightarrow> unat (of_nat n :: 32 word) = n"
  by (simp add: unat_of_nat)

lemma WriteString_buffer:
  "w_Write m = bufferWrite \<Longrightarrow>
   WriteString m v =
     Some (Ret (None, m\<lparr>buf := PutUint32 (of_nat (length v)) @ drop 4 (buf m),
                          w := w m @ PutUint32 (of_nat (length v)) @ v\<rparr>))"
  by (simp add: WriteString_def WriteInt_buffer writeAll_buffer ucast_of_nat_64_32)

lemma sint_ucast_32_64: "sint (ucast (x :: 32 word) :: 64 word) = uint x"
proof -
  have "uint x < 2 ^ 32" using uint_lt2p [of x] by simp
  then have a: "uint x < 2 ^ 63" by simp
  have b: "- (2 ^ 63) \<le> uint x" by (rule order_trans [OF _ uint_nonnegative]) simp
  have "signed_take_bit 63 (uint x) = uint x"
    by (rule signed_take_bit_int_eq_self [OF b a])
  then show ?thesis
    by (simp add: signed_ucast_eq)
qed

lemma ReadString_exact:
  "r m = PutUint32 len @ body @ rest \<Longrightarrow> length body = unat len \<Longrightarrow>
   ReadString m = Ret (body, None, m\<lparr>r := rest, buf := PutUint32 len @ drop 4 (buf m)\<rparr>)"
  by (simp add: ReadString_def ReadInt_exact [of m "PutUint32 len" "body @ rest"]
      length_PutUint32 Uint32_PutUint32 sint_ucast_32_64 ReadFull_exact)



lemma ReadString_if:
  "r m = PutUint32 len @ s \<Longrightarrow>
   ReadString m =
     (if unat len \<le> length s
      then Ret (take (unat len) s, None,
                m\<lparr>r := drop (unat len) s, buf := PutUint32 len @ drop 4 (buf m)\<rparr>)
      else Ret ([], Some (trunc s), m\<lparr>r := [], buf := PutUint32 len @ drop 4 (buf m)\<rparr>))"
  by (auto simp add: ReadString_def ReadInt_exact [of m "PutUint32 len" s]
      length_PutUint32 Uint32_PutUint32 sint_ucast_32_64 ReadFull_def trunc_def)

lemma replicate_4_zero: "replicate 4 (0::byte) = [0, 0, 0, 0]"
  by code_simp

lemma replicate_8_zero: "replicate 8 (0::byte) = [0, 0, 0, 0, 0, 0, 0, 0]"
  by code_simp

lemma WriteString_ex:
  "w_Write m = bufferWrite \<Longrightarrow>
   \<exists>m1. WriteString m v = Some (Ret (None, m1)) \<and> w_Write m1 = bufferWrite
      \<and> w m1 = w m @ encString v"
  by (simp add: WriteString_buffer encString_def)

lemma ReadString_ex:
  "r m = encString v @ rest \<Longrightarrow> length v < 2 ^ 32 \<Longrightarrow>
   \<exists>m1. ReadString m = Ret (v, None, m1) \<and> r m1 = rest"
  using ReadString_exact [of m "of_nat (length v)" v rest]
  by (simp add: encString_def unat_of_nat_32)

lemma WriteUnit_ex:
  assumes "w_Write m = bufferWrite"
  shows "\<exists>m1. WriteUnit m u = Some (Ret (None, m1)) \<and> w_Write m1 = bufferWrite
      \<and> w m1 = w m @ encString (Id_unit u) @ encString (Name u) @ encString (Type u)"
proof -
  from WriteString_ex [OF assms] obtain m1 where
    1: "WriteString m (Id_unit u) = Some (Ret (None, m1))" "w_Write m1 = bufferWrite"
       "w m1 = w m @ encString (Id_unit u)" by blast
  from WriteString_ex [OF 1(2)] obtain m2 where
    2: "WriteString m1 (Name u) = Some (Ret (None, m2))" "w_Write m2 = bufferWrite"
       "w m2 = w m1 @ encString (Name u)" by blast
  from WriteString_ex [OF 2(2)] obtain m3 where
    3: "WriteString m2 (Type u) = Some (Ret (None, m3))" "w_Write m3 = bufferWrite"
       "w m3 = w m2 @ encString (Type u)" by blast
  have "WriteUnit m u = Some (Ret (None, m3))"
    by (simp add: WriteUnit_def 1(1) 2(1) 3(1))
  then show ?thesis using 1 2 3 by simp
qed

lemma ReadUnit_ex:
  assumes "r m = encString (Id_unit u) @ encString (Name u) @ encString (Type u) @ rest"
    and "length (Id_unit u) < 2 ^ 32" and "length (Name u) < 2 ^ 32" and "length (Type u) < 2 ^ 32"
  shows "\<exists>m3. ReadUnit m = Ret (u, None, m3) \<and> r m3 = rest"
proof -
  from ReadString_ex [OF assms(1) assms(2)] obtain m1 where
    1: "ReadString m = Ret (Id_unit u, None, m1)"
       "r m1 = encString (Name u) @ encString (Type u) @ rest" by blast
  from ReadString_ex [OF 1(2) assms(3)] obtain m2 where
    2: "ReadString m1 = Ret (Name u, None, m2)" "r m2 = encString (Type u) @ rest" by blast
  from ReadString_ex [OF 2(2) assms(4)] obtain m3 where
    3: "ReadString m2 = Ret (Type u, None, m3)" "r m3 = rest" by blast
  have "ReadUnit m = Ret (u, None, m3)"
    by (simp add: ReadUnit_def 1(1) 2(1) 3(1) zeroUnit_def)
  then show ?thesis using 3(2) by blast
qed

lemma WriteGrid_buffer_header:
  "w_Write m = bufferWrite \<Longrightarrow>
   WriteGrid m v =
     (if sint (4 * M v) < 0 then Some Panic
      else writeRows (m\<lparr>buf := PutUint32 (Float32bits (StepLon v)) @ drop 4 (buf m),
                         w := w m @ gridHeaderBytes v\<rparr>)
             v 0 (replicate (nat (sint (4 * M v))) 0))"
  by (simp add: WriteGrid_def WriteInt_buffer WriteFloat_buffer length_PutUint32
      gridHeaderBytes_def)

lemma encodeRow_ok:
  "cols = 0 \<or> (i < length dat \<and> cols \<le> length (dat ! i)) \<Longrightarrow>
   length rowBuf = 4 * cols \<Longrightarrow> j \<le> cols \<Longrightarrow>
   encodeRow dat i cols j rowBuf =
     Ret (take (4 * j) rowBuf
          @ concat (map (\<lambda>x. PutUint32 (Float32bits x)) (drop j (take cols (dat ! i)))))"
proof (induction dat i cols j rowBuf rule: encodeRow.induct)
  case (1 dat i cols j rowBuf)
  show ?case
  proof (cases "j < cols")
    case False
    with 1 show ?thesis
      by (subst encodeRow.simps) simp
  next
    case True
    let ?row = "dat ! i"
    let ?rb = "take (4 * j) rowBuf @ PutUint32 (Float32bits (?row ! j)) @ drop (4 * j + 4) rowBuf"
    from True 1 have g: "i < length dat" "cols \<le> length ?row" "j < length ?row"
      "4 * j + 4 \<le> length rowBuf"
      by auto
    have len: "length ?rb = 4 * cols"
      using g True 1 by (simp add: length_PutUint32)
    have ih: "encodeRow dat i cols (j + 1) ?rb =
        Ret (take (4 * (j + 1)) ?rb
          @ concat (map (\<lambda>x. PutUint32 (Float32bits x)) (drop (j + 1) (take cols ?row))))"
      using 1 True g len by simp
    have tk: "take (4 * (j + 1)) ?rb = take (4 * j) rowBuf @ PutUint32 (Float32bits (?row ! j))"
      using g by (simp add: length_PutUint32)
    have dr: "drop j (take cols ?row) = ?row ! j # drop (j + 1) (take cols ?row)"
      using Cons_nth_drop_Suc [of j "take cols ?row"] True g by simp
    show ?thesis
      using True g ih [unfolded tk]
      by (subst encodeRow.simps) (simp add: dr)
  qed
qed

lemma encodeRow_Panic:
  "j < cols \<Longrightarrow> \<not> (i < length dat \<and> cols \<le> length (dat ! i)) \<Longrightarrow>
   encodeRow dat i cols j rowBuf = Panic"
proof (induction dat i cols j rowBuf rule: encodeRow.induct)
  case (1 dat i cols j rowBuf)
  show ?case
  proof (cases "4 * j + 4 \<le> length rowBuf \<and> i < length dat \<and> j < length (dat ! i)")
    case False
    with 1(2) show ?thesis
      by (subst encodeRow.simps) auto
  next
    case True
    with 1 have "j + 1 < cols" by auto
    with 1 True show ?thesis
      by (subst encodeRow.simps) simp
  qed
qed

lemma writeRows_buffer_ok:
  "w_Write m = bufferWrite \<Longrightarrow>
   nat (sint (M v)) = 0
     \<or> (\<forall>k. i \<le> k \<and> int k < sint (N v) \<longrightarrow>
           k < length (Data v) \<and> nat (sint (M v)) \<le> length (Data v ! k)) \<Longrightarrow>
   length rb = 4 * nat (sint (M v)) \<Longrightarrow>
   \<exists>m'. writeRows m v i rb = Some (Ret (None, m'))
      \<and> w m' = w m @ concat (map (\<lambda>k. rowBytes (nat (sint (M v))) (Data v ! k)) [i..<nat (sint (N v))])"
proof (induction m v i rb rule: writeRows.induct)
  case (1 m v i rowBuf)
  let ?cols = "nat (sint (M v))"
  show ?case
  proof (cases "int i < sint (N v)")
    case False
    then show ?thesis
      by (subst writeRows.simps) simp
  next
    case True
    let ?rb = "rowBytes ?cols (Data v ! i)"
    let ?m' = "m\<lparr>w := w m @ ?rb\<rparr>"
    from 1(3) True have ok: "?cols = 0 \<or> (i < length (Data v) \<and> ?cols \<le> length (Data v ! i))"
      by auto
    have e: "encodeRow (Data v) i ?cols 0 rowBuf = Ret ?rb"
      using encodeRow_ok [OF ok 1(4), of 0] by (simp add: rowBytes_def)
    have wa: "writeAll m ?rb = Some (Ret (None, ?m'))"
      using 1(2) by (rule writeAll_buffer)
    have len: "length ?rb = 4 * ?cols"
      using ok by (auto simp add: rowBytes_def length_concat comp_def length_PutUint32 sum_list_triv)
    have "\<exists>m''. writeRows ?m' v (i + 1) ?rb = Some (Ret (None, m''))
      \<and> w m'' = w ?m' @ concat (map (\<lambda>k. rowBytes ?cols (Data v ! k)) [i + 1..<nat (sint (N v))])"
      using 1(1) [OF True e wa] 1(2,3) len by auto
    then obtain m'' where m'': "writeRows ?m' v (i + 1) ?rb = Some (Ret (None, m''))"
      "w m'' = w ?m' @ concat (map (\<lambda>k. rowBytes ?cols (Data v ! k)) [i + 1..<nat (sint (N v))])"
      by blast
    have up: "[i..<nat (sint (N v))] = i # [i + 1..<nat (sint (N v))]"
      using True by (simp add: upt_conv_Cons)
    have "writeRows m v i rowBuf = Some (Ret (None, m''))"
      using True e wa m''(1) by (subst writeRows.simps) simp
    then show ?thesis using m''(2) up by simp
  qed
qed

lemma writeRows_buffer_Panic:
  "w_Write m = bufferWrite \<Longrightarrow> 0 < nat (sint (M v)) \<Longrightarrow>
   \<exists>k. i \<le> k \<and> int k < sint (N v)
       \<and> \<not> (k < length (Data v) \<and> nat (sint (M v)) \<le> length (Data v ! k)) \<Longrightarrow>
   length rb = 4 * nat (sint (M v)) \<Longrightarrow>
   writeRows m v i rb = Some Panic"
proof (induction m v i rb rule: writeRows.induct)
  case (1 m v i rowBuf)
  let ?cols = "nat (sint (M v))"
  from 1(4) have True: "int i < sint (N v)" by auto
  show ?case
  proof (cases "i < length (Data v) \<and> ?cols \<le> length (Data v ! i)")
    case False
    have "encodeRow (Data v) i ?cols 0 rowBuf = Panic"
      using encodeRow_Panic [OF 1(3) False] .
    then show ?thesis using True
      by (subst writeRows.simps) simp
  next
    case ok: True
    let ?rb = "rowBytes ?cols (Data v ! i)"
    let ?m' = "m\<lparr>w := w m @ ?rb\<rparr>"
    have e: "encodeRow (Data v) i ?cols 0 rowBuf = Ret ?rb"
      using encodeRow_ok [of ?cols i "Data v" rowBuf 0] ok 1(5) by (simp add: rowBytes_def)
    have wa: "writeAll m ?rb = Some (Ret (None, ?m'))"
      using 1(2) by (rule writeAll_buffer)
    have len: "length ?rb = 4 * ?cols"
      using ok by (auto simp add: rowBytes_def length_concat comp_def length_PutUint32 sum_list_triv)
    from 1(4) ok have ex: "\<exists>k. i + 1 \<le> k \<and> int k < sint (N v)
       \<and> \<not> (k < length (Data v) \<and> ?cols \<le> length (Data v ! k))"
      by (metis Suc_eq_plus1 Suc_leI le_neq_implies_less)
    have "writeRows ?m' v (i + 1) ?rb = Some Panic"
      using 1(1) [OF True e wa] 1(2,3) ex len by simp
    then show ?thesis
      using True e wa by (subst writeRows.simps) simp
  qed
qed

lemma sint_4_times:
  assumes "0 \<le> sint (x :: 64 word)" and "sint x < 2 ^ 61"
  shows "sint (4 * x) = 4 * sint x"
proof -
  have a: "- (2 ^ 63) \<le> 4 * sint x" using assms(1) by simp
  have b: "4 * sint x < 2 ^ 63" using assms(2) by simp
  have "sint (4 * x) = signed_take_bit 63 (sint (4 :: 64 word) * sint x)"
    by (simp add: sint_word_ariths word_size)
  also have "\<dots> = signed_take_bit 63 (4 * sint x)" by simp
  also have "\<dots> = 4 * sint x" by (rule signed_take_bit_int_eq_self [OF a b])
  finally show ?thesis .
qed

lemma WriteGrid_buffer_ok:
  assumes "w_Write m = bufferWrite" and "0 \<le> sint (M v)" and "sint (M v) < 2 ^ 61"
    and "nat (sint (M v)) = 0
         \<or> (\<forall>k. int k < sint (N v) \<longrightarrow>
               k < length (Data v) \<and> nat (sint (M v)) \<le> length (Data v ! k))"
  shows "\<exists>m'. WriteGrid m v = Some (Ret (None, m'))
           \<and> written m m' = gridHeaderBytes v
               @ concat (map (\<lambda>k. rowBytes (nat (sint (M v))) (Data v ! k))
                           [0..<nat (sint (N v))])"
proof -
  let ?cols = "nat (sint (M v))"
  let ?m8 = "m\<lparr>buf := PutUint32 (Float32bits (StepLon v)) @ drop 4 (buf m),
                w := w m @ gridHeaderBytes v\<rparr>"
  let ?rb = "replicate (nat (sint (4 * M v))) (0 :: byte)"
  have s4: "sint (4 * M v) = 4 * sint (M v)"
    using assms(2,3) by (rule sint_4_times)
  have len: "length ?rb = 4 * ?cols"
    using assms(2) by (simp add: s4 nat_mult_distrib)
  have hd: "WriteGrid m v = writeRows ?m8 v 0 ?rb"
    using assms(2) by (simp add: WriteGrid_buffer_header [OF assms(1)] s4)
  have sink: "w_Write ?m8 = bufferWrite"
    using assms(1) by simp
  from assms(4) have ok: "?cols = 0 \<or> (\<forall>k. 0 \<le> k \<and> int k < sint (N v) \<longrightarrow>
           k < length (Data v) \<and> ?cols \<le> length (Data v ! k))"
    by auto
  from writeRows_buffer_ok [OF sink ok len] obtain m' where
    m': "writeRows ?m8 v 0 ?rb = Some (Ret (None, m'))"
    "w m' = w ?m8 @ concat (map (\<lambda>k. rowBytes ?cols (Data v ! k)) [0..<nat (sint (N v))])"
    by blast
  have "written m m' = gridHeaderBytes v
      @ concat (map (\<lambda>k. rowBytes ?cols (Data v ! k)) [0..<nat (sint (N v))])"
    by (simp add: written_def m'(2))
  with hd m'(1) show ?thesis by auto
qed

lemma WriteGrid_buffer_Panic:
  assumes "w_Write m = bufferWrite" and "0 < sint (M v)" and "sint (M v) < 2 ^ 61"
    and "\<exists>k. int k < sint (N v)
           \<and> \<not> (k < length (Data v) \<and> nat (sint (M v)) \<le> length (Data v ! k))"
  shows "WriteGrid m v = Some Panic"
proof -
  let ?cols = "nat (sint (M v))"
  let ?m8 = "m\<lparr>buf := PutUint32 (Float32bits (StepLon v)) @ drop 4 (buf m),
                w := w m @ gridHeaderBytes v\<rparr>"
  let ?rb = "replicate (nat (sint (4 * M v))) (0 :: byte)"
  have s4: "sint (4 * M v) = 4 * sint (M v)"
    using assms(2,3) by (intro sint_4_times) simp_all
  have len: "length ?rb = 4 * ?cols"
    using assms(2) by (simp add: s4 nat_mult_distrib)
  have hd: "WriteGrid m v = writeRows ?m8 v 0 ?rb"
    using assms(2) by (simp add: WriteGrid_buffer_header [OF assms(1)] s4)
  have sink: "w_Write ?m8 = bufferWrite"
    using assms(1) by simp
  from assms(4) have bad: "\<exists>k. 0 \<le> k \<and> int k < sint (N v)
       \<and> \<not> (k < length (Data v) \<and> ?cols \<le> length (Data v ! k))"
    by simp
  from assms(2) have pos: "0 < ?cols" by simp
  have "writeRows ?m8 v 0 ?rb = Some Panic"
    using writeRows_buffer_Panic [OF sink pos bad len] .
  with hd show ?thesis by simp
qed


lemma gridSpec_encoding:
  "gridHeaderBytes gridSpec @ concat (map (\<lambda>k. rowBytes 3 (Data gridSpec ! k)) [0..<2])
     = gridSpecBytes"
  by code_simp

lemma gridOne_encoding:
  "gridHeaderBytes gridOne @ concat (map (\<lambda>k. rowBytes 1 (Data gridOne ! k)) [0..<1])
     = gridOneBytes"
  by code_simp

lemma ReadGrid_gridSpecBytes: "ReadGrid (fresh gridSpecBytes) = Panic"
  by (simp add: ReadGrid_def ReadInt_def ReadFloat_def readBuf_def ReadFull_def fresh_def
      NewMdasIO_def gridSpecBytes_def Let_def Uint32_def replicate_8_zero zeroGrid_def
      readRows.simps decodeRow.simps)

lemma ReadGrid_gridOneBytes:
  "ReadGrid (fresh gridOneBytes) =
     Ret (gridOne\<lparr>Data := [[Float32frombits 0x40000000]]\<rparr>, None,
          \<lparr>r = [], w = [], w_Write = bufferWrite, buf = [0, 0, 0, 0x40, 0, 0, 0, 0]\<rparr>)"
  by (simp add: ReadGrid_def ReadInt_def ReadFloat_def readBuf_def ReadFull_def fresh_def
      NewMdasIO_def gridOneBytes_def gridOne_def Let_def Uint32_def replicate_8_zero zeroGrid_def
      readRows.simps decodeRow.simps)

lemma gridSpec_rows:
  "int k < sint (N gridSpec) \<Longrightarrow>
   k < length (Data gridSpec) \<and> nat (sint (M gridSpec)) \<le> length (Data gridSpec ! k)"
proof -
  assume "int k < sint (N gridSpec)"
  then have "k = 0 \<or> k = 1" by (auto simp add: gridSpec_def)
  then show ?thesis by (auto simp add: gridSpec_def)
qed











lemma writeAll_progress:
  "\<forall>s bs. bs \<noteq> [] \<longrightarrow> (case w_Write m s bs of (n, e, s') \<Rightarrow> e \<noteq> None \<or> 0 < n) \<Longrightarrow>
   \<exists>res. writeAll m b = Some res"
proof (induction "length b" arbitrary: m b rule: less_induct)
  case less
  show ?case
  proof (cases "b = []")
    case True
    then show ?thesis by (subst writeAll.simps) simp
  next
    case False
    obtain n x s' where sw: "w_Write m (w m) b = (n, x, s')"
      by (cases "w_Write m (w m) b") auto
    show ?thesis
    proof (cases x)
      case (Some err)
      with False sw show ?thesis
        by (subst writeAll.simps) (simp add: sinkWrite_def)
    next
      case None
      from less(2) have "b \<noteq> [] \<longrightarrow> (case w_Write m (w m) b of (n, e, s') \<Rightarrow> e \<noteq> None \<or> 0 < n)"
        by (elim allE)
      from this False have "case w_Write m (w m) b of (n, e, s') \<Rightarrow> e \<noteq> None \<or> 0 < n"
        by (rule mp)
      with sw None have pos: "0 < n" by simp
      show ?thesis
      proof (cases "int (length b) < n")
        case True
        with False sw None show ?thesis
          by (subst writeAll.simps) (simp add: sinkWrite_def)
      next
        case rng: False
        let ?m1 = "m\<lparr>w := s'\<rparr>"
        have lt: "length (drop (nat n) b) < length b"
          using pos False by simp
        have eq: "w_Write ?m1 = w_Write m" by simp
        have "\<forall>s bs. bs \<noteq> [] \<longrightarrow> (case w_Write ?m1 s bs of (n, e, s') \<Rightarrow> e \<noteq> None \<or> 0 < n)"
          unfolding eq by (rule less(2))
        from less(1) [OF lt this] obtain res where "writeAll ?m1 (drop (nat n) b) = Some res"
          by blast
        with False sw None pos rng show ?thesis
          by (subst writeAll.simps) (simp add: sinkWrite_def)
      qed
    qed
  qed
qed

lemma writeAll_stalls_aux:
  assumes "writeAll m b = Some y"
  shows "(\<forall>s bs. \<exists>s'. w_Write m s bs = (0, None, s')) \<longrightarrow> b = []"
proof (rule writeAll.raw_induct [where P = "\<lambda>m b y.
    (\<forall>s bs. \<exists>s'. w_Write m s bs = (0, None, s')) \<longrightarrow> b = []", OF _ assms])
  fix wa :: "'a MdasIO \<Rightarrow> byte list \<Rightarrow> (err option \<times> 'a MdasIO) res option" and m b y
  assume IH: "\<And>m b y. wa m b = Some y \<Longrightarrow>
      (\<forall>s bs. \<exists>s'. w_Write m s bs = (0, None, s')) \<longrightarrow> b = []"
    and body: "(if 0 < length b
      then case sinkWrite m b of
           (n, None, m') \<Rightarrow>
             if n < 0 \<or> int (length b) < n then Some Panic
             else wa m' (drop (nat n) b)
           | (n, Some e, m') \<Rightarrow> Some (Ret (Some e, m'))
      else Some (Ret (None, m))) = Some y"
  show "(\<forall>s bs. \<exists>s'. w_Write m s bs = (0, None, s')) \<longrightarrow> b = []"
  proof
    assume z: "\<forall>s bs. \<exists>s'. w_Write m s bs = (0, None, s')"
    show "b = []"
    proof (rule ccontr)
      assume ne: "b \<noteq> []"
      from z obtain s' where sw: "w_Write m (w m) b = (0, None, s')" by blast
      with body ne have "wa (m\<lparr>w := s'\<rparr>) b = Some y"
        by (simp add: sinkWrite_def)
      from IH [OF this] z have "b = []" by simp
      with ne show False by simp
    qed
  qed
qed

lemma writeAll_stalls:
  "\<forall>s bs. \<exists>s'. w_Write m s bs = (0, None, s') \<Longrightarrow> b \<noteq> [] \<Longrightarrow> writeAll m b = None"
proof (rule ccontr)
  assume z: "\<forall>s bs. \<exists>s'. w_Write m s bs = (0, None, s')" and ne: "b \<noteq> []"
    and "writeAll m b \<noteq> None"
  then obtain y where "writeAll m b = Some y" by auto
  from writeAll_stalls_aux [OF this] z have "b = []" by (rule mp)
  with ne show False by simp
qed




















section \<open>Scalars\<close>

text \<open>
  Decoding what the matching encoder appended to an in-memory sink gives the value
  back, for \<open>bool\<close>, \<open>int16\<close>, \<open>int64\<close> and \<open>float32\<close> (every bit pattern, so also NaN,
  the infinities and negative zero), and leaves the stream right after the value.
\<close>

lemma ReadBool_WriteBool:
  "w_Write m = bufferWrite \<Longrightarrow>
   ReadBool (m'\<lparr>r := written m (snd (WriteBool m v)) @ rest\<rparr>) =
     (v, None, m'\<lparr>r := rest, buf := (if v then 1 else 0) # drop 1 (buf m')\<rparr>)"
  by (simp add: WriteBool_buffer written_def ReadBool_exact [where rest = rest])

lemma ReadInt16_WriteInt16:
  "w_Write m = bufferWrite \<Longrightarrow>
   ReadInt16 (m'\<lparr>r := written m (snd (WriteInt16 m v)) @ rest\<rparr>) =
     (v, None, m'\<lparr>r := rest, buf := PutUint16 v @ drop 2 (buf m')\<rparr>)"
  by (simp add: WriteInt16_buffer written_def length_PutUint16 Uint16_PutUint16
      ReadInt16_exact [where d = "PutUint16 v" and rest = rest])

lemma ReadInt64_WriteInt64:
  "w_Write m = bufferWrite \<Longrightarrow>
   ReadInt64 (m'\<lparr>r := written m (snd (WriteInt64 m v)) @ rest\<rparr>) =
     (v, None, m'\<lparr>r := rest, buf := PutUint64 v @ drop 8 (buf m')\<rparr>)"
  by (simp add: WriteInt64_buffer written_def length_PutUint64 Uint64_PutUint64
      ReadInt64_exact [where d = "PutUint64 v" and rest = rest])

lemma ReadFloat_WriteFloat:
  "w_Write m = bufferWrite \<Longrightarrow>
   ReadFloat (m'\<lparr>r := written m (snd (WriteFloat m v)) @ rest\<rparr>) =
     (v, None, m'\<lparr>r := rest, buf := PutUint32 (Float32bits v) @ drop 4 (buf m')\<rparr>)"
  by (simp add: WriteFloat_buffer written_def length_PutUint32 Uint32_PutUint32
      ReadFloat_exact [where d = "PutUint32 (Float32bits v)" and rest = rest])

text \<open>
  \<open>ReadInt\<close> after \<open>WriteInt\<close> gives the low 32 bits of the value, extended with zeros:
  the value itself exactly when it lies between 0 and \<open>2^32 - 1\<close>.
\<close>

lemma ReadInt_WriteInt:
  "w_Write m = bufferWrite \<Longrightarrow>
   ReadInt (m'\<lparr>r := written m (snd (WriteInt m v)) @ rest\<rparr>) =
     (ucast (ucast v :: 32 word), None,
      m'\<lparr>r := rest, buf := PutUint32 (ucast v) @ drop 4 (buf m')\<rparr>)"
  by (simp add: WriteInt_buffer written_def length_PutUint32 Uint32_PutUint32
      ReadInt_exact [where d = "PutUint32 (ucast v)" and rest = rest])

text \<open>
  C2 (the code departs from the claim). The claim: for every scalar kind, decoding the
  encoded bytes returns the original value, in particular \<open>ReadInt(WriteInt(v)) == v\<close>
  for every 32-bit signed \<open>v\<close>, negative ones included. At \<open>v = -1\<close> the code writes
  the bytes FF FF FF FF without error, and \<open>ReadInt\<close> on these bytes returns
  4294967295 without error: \<open>ReadInt\<close> converts the \<open>uint32\<close> straight to \<open>int\<close>, where
  \<open>ReadInt16\<close> and \<open>ReadInt64\<close> convert to the signed type of the same width.
\<close>

theorem ReadInt_WriteInt_minus_one:
  "fst (WriteInt (NewMdasIO [] bufferWrite []) (- 1)) = None
   \<and> w (snd (WriteInt (NewMdasIO [] bufferWrite []) (- 1))) = [255, 255, 255, 255]
   \<and> fst (ReadInt (NewMdasIO (w (snd (WriteInt (NewMdasIO [] bufferWrite []) (- 1))))
             bufferWrite [])) = 4294967295
   \<and> fst (snd (ReadInt (NewMdasIO (w (snd (WriteInt (NewMdasIO [] bufferWrite []) (- 1))))
             bufferWrite []))) = None
   \<and> sint (4294967295 :: goint) = 4294967295 \<and> sint (- 1 :: goint) = - 1"
  by code_simp

section \<open>Strings\<close>

text \<open>
  C4. For every byte string \<open>v\<close> shorter than \<open>2^32\<close> bytes (so of length 0, 1 or
  10,000 alike), whatever its bytes, zero bytes included: \<open>WriteString\<close> to an in-memory
  sink succeeds, and \<open>ReadString\<close> on the bytes it appended returns \<open>v\<close> itself, hence the
  same length and the same bytes, without error, leaving the stream right after them.
\<close>

theorem WriteString_ReadString:
  "w_Write m = bufferWrite \<Longrightarrow> length v < 2 ^ 32 \<Longrightarrow>
   (\<exists>m1. WriteString m v = Some (Ret (None, m1))
      \<and> (\<exists>m2. ReadString (m'\<lparr>r := written m m1 @ rest\<rparr>) = Ret (v, None, m2) \<and> r m2 = rest))"
  by (simp add: WriteString_buffer written_def unat_of_nat_32
      ReadString_exact [where len = "of_nat (length v)" and body = v and rest = rest])

theorem WriteString_ReadString_witness:
  "w_Write (NewMdasIO [] bufferWrite []) = bufferWrite \<and> length [97, 0, 98 :: byte] < 2 ^ 32
   \<and> (\<exists>m1. WriteString (NewMdasIO [] bufferWrite []) [97, 0, 98] = Some (Ret (None, m1))
      \<and> (\<exists>m2. ReadString (NewMdasIO [] bufferWrite []\<lparr>r := written (NewMdasIO [] bufferWrite []) m1 @ []\<rparr>)
             = Ret ([97, 0, 98], None, m2) \<and> r m2 = []))"
proof -
  have h: "w_Write (NewMdasIO [] bufferWrite []) = bufferWrite"
    by (simp add: NewMdasIO_def)
  have l: "length [97, 0, 98 :: byte] < 2 ^ 32" by simp
  from WriteString_ReadString [OF h l, where m' = "NewMdasIO [] bufferWrite []" and rest = "[]"]
  show ?thesis using h l by blast
qed

section \<open>Timestamps\<close>

text \<open>
  C8. \<open>WriteDate\<close> appends the eight little-endian bytes of the signed 64-bit count of
  whole seconds since the Unix epoch, and \<open>ReadDate\<close> on these bytes returns the timestamp
  with the same seconds and no nanoseconds: the original truncated to whole seconds.
\<close>

theorem WriteDate_ReadDate:
  "w_Write m = bufferWrite \<Longrightarrow>
   fst (WriteDate m t) = None
   \<and> written m (snd (WriteDate m t)) = PutUint64 (Unix t)
   \<and> length (PutUint64 (Unix t)) = 8
   \<and> Unix t = unixSec t
   \<and> fst (ReadDate (m'\<lparr>r := written m (snd (WriteDate m t)) @ rest\<rparr>)) = t\<lparr>nsec := 0\<rparr>
   \<and> fst (snd (ReadDate (m'\<lparr>r := written m (snd (WriteDate m t)) @ rest\<rparr>))) = None
   \<and> r (snd (snd (ReadDate (m'\<lparr>r := written m (snd (WriteDate m t)) @ rest\<rparr>)))) = rest"
  by (simp add: WriteDate_def ReadDate_def WriteInt64_buffer written_def
      length_PutUint64 Uint64_PutUint64 Unix_def time_Unix_def
      ReadInt64_exact [where d = "PutUint64 (unixSec t)" and rest = rest])

theorem WriteDate_ReadDate_witness:
  "w_Write (NewMdasIO [] bufferWrite []) = bufferWrite
   \<and> fst (WriteDate (NewMdasIO [] bufferWrite []) \<lparr>unixSec = 1700000000, nsec = 123456789\<rparr>) = None
   \<and> fst (ReadDate (NewMdasIO [] bufferWrite []
         \<lparr>r := written (NewMdasIO [] bufferWrite [])
            (snd (WriteDate (NewMdasIO [] bufferWrite []) \<lparr>unixSec = 1700000000, nsec = 123456789\<rparr>)) @ []\<rparr>))
       = \<lparr>unixSec = 1700000000, nsec = 0\<rparr>"
proof -
  have h: "w_Write (NewMdasIO [] bufferWrite []) = bufferWrite"
    by (simp add: NewMdasIO_def)
  note t = WriteDate_ReadDate [OF h, where t = "\<lparr>unixSec = 1700000000, nsec = 123456789\<rparr>"
      and m' = "NewMdasIO [] bufferWrite []" and rest = "[]"]
  from t have a: "fst (WriteDate (NewMdasIO [] bufferWrite [])
      \<lparr>unixSec = 1700000000, nsec = 123456789\<rparr>) = None"
    by blast
  from t have "fst (ReadDate (NewMdasIO [] bufferWrite []
         \<lparr>r := written (NewMdasIO [] bufferWrite [])
            (snd (WriteDate (NewMdasIO [] bufferWrite []) \<lparr>unixSec = 1700000000, nsec = 123456789\<rparr>)) @ []\<rparr>))
       = \<lparr>unixSec = 1700000000, nsec = 123456789\<rparr>\<lparr>nsec := 0\<rparr>"
    by blast
  then have b: "fst (ReadDate (NewMdasIO [] bufferWrite []
         \<lparr>r := written (NewMdasIO [] bufferWrite [])
            (snd (WriteDate (NewMdasIO [] bufferWrite []) \<lparr>unixSec = 1700000000, nsec = 123456789\<rparr>)) @ []\<rparr>))
       = \<lparr>unixSec = 1700000000, nsec = 0\<rparr>"
    by simp
  show ?thesis using h a b by blast
qed

section \<open>The length prefix of a string\<close>

text \<open>
  C3 as stated fails: \<open>ReadString\<close> has no check of the length prefix. The prefix
  7F FF FF FF (little-endian FF FF FF 7F), the largest 32-bit signed value and so beyond
  every bound that excludes anything, followed by that many bytes is decoded into a string
  of 2147483647 bytes without error; and the prefix FF FF FF FF, which is -1 as a 32-bit
  signed value, followed by 4294967295 bytes is decoded without error as well.
\<close>

theorem ReadString_huge_prefix_accepted:
  "ReadString (NewMdasIO ([255, 255, 255, 127] @ replicate 2147483647 0) bufferWrite []) =
     Ret (replicate 2147483647 0, None,
          \<lparr>r = [], w = [], w_Write = bufferWrite, buf = [255, 255, 255, 127, 0, 0, 0, 0]\<rparr>)
   \<and> sint (Uint32 [255, 255, 255, 127]) = 2147483647
   \<and> ReadString (NewMdasIO ([255, 255, 255, 255] @ replicate 4294967295 0) bufferWrite []) =
     Ret (replicate 4294967295 0, None,
          \<lparr>r = [], w = [], w_Write = bufferWrite, buf = [255, 255, 255, 255, 0, 0, 0, 0]\<rparr>)
   \<and> sint (Uint32 [255, 255, 255, 255]) = - 1"
proof -
  have p1: "PutUint32 2147483647 = [255, 255, 255, 127]"
    by (simp add: PutUint32_def)
  have p2: "PutUint32 4294967295 = [255, 255, 255, 255]"
    by (simp add: PutUint32_def)
  have a: "ReadString (NewMdasIO ([255, 255, 255, 127] @ replicate 2147483647 0) bufferWrite []) =
     Ret (replicate 2147483647 0, None,
          \<lparr>r = [], w = [], w_Write = bufferWrite, buf = [255, 255, 255, 127, 0, 0, 0, 0]\<rparr>)"
    using ReadString_if [of "NewMdasIO ([255, 255, 255, 127] @ replicate 2147483647 0) bufferWrite []"
        2147483647 "replicate 2147483647 0"]
    by (simp add: p1 NewMdasIO_def replicate_4_zero)
  have b: "ReadString (NewMdasIO ([255, 255, 255, 255] @ replicate 4294967295 0) bufferWrite []) =
     Ret (replicate 4294967295 0, None,
          \<lparr>r = [], w = [], w_Write = bufferWrite, buf = [255, 255, 255, 255, 0, 0, 0, 0]\<rparr>)"
    using ReadString_if [of "NewMdasIO ([255, 255, 255, 255] @ replicate 4294967295 0) bufferWrite []"
        4294967295 "replicate 4294967295 0"]
    by (simp add: p2 NewMdasIO_def replicate_4_zero)
  have c: "sint (Uint32 [255, 255, 255, 127]) = 2147483647"
    by (simp add: Uint32_def)
  have d: "sint (Uint32 [255, 255, 255, 255]) = - 1"
    by (simp add: Uint32_def)
  show ?thesis using a b c d by blast
qed

text \<open>
  C3, amended. \<open>ReadString\<close> applies no bound to the length prefix: for every prefix \<open>len\<close>
  that is non-negative as a 32-bit signed value, it returns exactly the next \<open>len\<close> bytes
  whenever the stream holds that many, whatever \<open>len\<close> is, and otherwise fails with the
  error of the read of the body: \<open>io.EOF\<close> when no byte follows the prefix,
  \<open>io.ErrUnexpectedEOF\<close> when fewer than \<open>len\<close> do.
\<close>

theorem ReadString_no_bound:
  "r m = PutUint32 len @ s \<Longrightarrow> 0 \<le> sint len \<Longrightarrow>
   ReadString m =
     (if unat len \<le> length s
      then Ret (take (unat len) s, None,
                m\<lparr>r := drop (unat len) s, buf := PutUint32 len @ drop 4 (buf m)\<rparr>)
      else Ret ([], Some (if s = [] then EOF else ErrUnexpectedEOF),
                m\<lparr>r := [], buf := PutUint32 len @ drop 4 (buf m)\<rparr>))"
  by (simp add: ReadString_if trunc_def)

theorem ReadString_no_bound_witness:
  "r (NewMdasIO [3, 0, 0, 0, 1, 2, 3, 4] bufferWrite []) = PutUint32 3 @ [1, 2, 3, 4]
   \<and> 0 \<le> sint (3 :: 32 word)
   \<and> ReadString (NewMdasIO [3, 0, 0, 0, 1, 2, 3, 4] bufferWrite []) =
       Ret ([1, 2, 3], None,
            \<lparr>r = [4], w = [], w_Write = bufferWrite, buf = [3, 0, 0, 0, 0, 0, 0, 0]\<rparr>)"
proof -
  have h1: "r (NewMdasIO [3, 0, 0, 0, 1, 2, 3, 4] bufferWrite []) = PutUint32 3 @ [1, 2, 3, 4]"
    by (simp add: NewMdasIO_def PutUint32_def)
  have h2: "0 \<le> sint (3 :: 32 word)"
    by simp
  have "ReadString (NewMdasIO [3, 0, 0, 0, 1, 2, 3, 4] bufferWrite []) =
       Ret ([1, 2, 3], None,
            \<lparr>r = [4], w = [], w_Write = bufferWrite, buf = [3, 0, 0, 0, 0, 0, 0, 0]\<rparr>)"
    using ReadString_no_bound [OF h1 h2]
    by (simp add: NewMdasIO_def PutUint32_def replicate_4_zero)
  then show ?thesis using h1 h2 by blast
qed

section \<open>Units\<close>

text \<open>
  C7. \<open>ReadUnit\<close> reads three length-prefixed strings in the order id, name, type: two
  Units encoded one after the other into an in-memory sink are decoded by two calls of
  \<open>ReadUnit\<close> on the produced bytes, the first returning the first Unit and leaving the
  stream at the bytes of the second, the second returning the second Unit and leaving
  what followed. When the read of the first, second or third string fails, \<open>ReadUnit\<close>
  returns that error, in the adapter state the failed read left (no further read).
\<close>

theorem ReadUnit_three_strings:
  assumes "w_Write m = bufferWrite"
    and "length (Id_unit u1) < 2 ^ 32" and "length (Name u1) < 2 ^ 32" and "length (Type u1) < 2 ^ 32"
    and "length (Id_unit u2) < 2 ^ 32" and "length (Name u2) < 2 ^ 32" and "length (Type u2) < 2 ^ 32"
  shows "(\<exists>m1 m2. WriteUnit m u1 = Some (Ret (None, m1)) \<and> WriteUnit m1 u2 = Some (Ret (None, m2))
            \<and> (\<exists>m3 m4. ReadUnit (m'\<lparr>r := written m m2 @ rest\<rparr>) = Ret (u1, None, m3)
                  \<and> r m3 = written m1 m2 @ rest
                  \<and> ReadUnit m3 = Ret (u2, None, m4) \<and> r m4 = rest))
     \<and> (ReadString ma = Ret (a, Some ea, ma1) \<longrightarrow>
          ReadUnit ma = Ret (zeroUnit\<lparr>Id_unit := a\<rparr>, Some ea, ma1))
     \<and> (ReadString mb = Ret (a', None, mb1) \<and> ReadString mb1 = Ret (b', Some eb, mb2) \<longrightarrow>
          ReadUnit mb = Ret (zeroUnit\<lparr>Id_unit := a', Name := b'\<rparr>, Some eb, mb2))
     \<and> (ReadString mc = Ret (a'', None, mc1) \<and> ReadString mc1 = Ret (b'', None, mc2)
          \<and> ReadString mc2 = Ret (c'', Some ec, mc3) \<longrightarrow>
          ReadUnit mc = Ret (zeroUnit\<lparr>Id_unit := a'', Name := b'', Type := c''\<rparr>, Some ec, mc3))"
proof -
  let ?e1 = "encString (Id_unit u1) @ encString (Name u1) @ encString (Type u1)"
  let ?e2 = "encString (Id_unit u2) @ encString (Name u2) @ encString (Type u2)"
  from WriteUnit_ex [OF assms(1)] obtain m1 where
    1: "WriteUnit m u1 = Some (Ret (None, m1))" "w_Write m1 = bufferWrite" "w m1 = w m @ ?e1"
    by blast
  from WriteUnit_ex [OF 1(2)] obtain m2 where
    2: "WriteUnit m1 u2 = Some (Ret (None, m2))" "w m2 = w m1 @ ?e2"
    by blast
  have wr: "written m m2 = ?e1 @ ?e2" "written m1 m2 = ?e2"
    by (simp_all add: written_def 1(3) 2(2))
  have "r (m'\<lparr>r := written m m2 @ rest\<rparr>) =
      encString (Id_unit u1) @ encString (Name u1) @ encString (Type u1) @ ?e2 @ rest"
    by (simp add: wr)
  from ReadUnit_ex [OF this assms(2-4)] obtain m3 where
    3: "ReadUnit (m'\<lparr>r := written m m2 @ rest\<rparr>) = Ret (u1, None, m3)" "r m3 = ?e2 @ rest"
    by blast
  have "r m3 = encString (Id_unit u2) @ encString (Name u2) @ encString (Type u2) @ rest"
    by (simp add: 3(2))
  from ReadUnit_ex [OF this assms(5-7)] obtain m4 where
    4: "ReadUnit m3 = Ret (u2, None, m4)" "r m4 = rest"
    by blast
  have rt: "\<exists>m1 m2. WriteUnit m u1 = Some (Ret (None, m1)) \<and> WriteUnit m1 u2 = Some (Ret (None, m2))
            \<and> (\<exists>m3 m4. ReadUnit (m'\<lparr>r := written m m2 @ rest\<rparr>) = Ret (u1, None, m3)
                  \<and> r m3 = written m1 m2 @ rest
                  \<and> ReadUnit m3 = Ret (u2, None, m4) \<and> r m4 = rest)"
    using 1(1) 2(1) 3 4 wr(2) by auto
  show ?thesis
    by (intro conjI impI rt) (simp_all add: ReadUnit_def)
qed

theorem ReadUnit_three_strings_witness:
  "w_Write (fresh []) = bufferWrite
   \<and> length (Id_unit unitA) < 2 ^ 32 \<and> length (Name unitA) < 2 ^ 32 \<and> length (Type unitA) < 2 ^ 32
   \<and> length (Id_unit unitB) < 2 ^ 32 \<and> length (Name unitB) < 2 ^ 32 \<and> length (Type unitB) < 2 ^ 32
   \<and> (\<exists>m1 m2. WriteUnit (fresh []) unitA = Some (Ret (None, m1))
          \<and> WriteUnit m1 unitB = Some (Ret (None, m2))
          \<and> (\<exists>m3 m4. ReadUnit (fresh []\<lparr>r := written (fresh []) m2 @ [9]\<rparr>) = Ret (unitA, None, m3)
                \<and> r m3 = written m1 m2 @ [9]
                \<and> ReadUnit m3 = Ret (unitB, None, m4) \<and> r m4 = [9]))
   \<and> ReadString (fresh []) = Ret ([], Some EOF, fresh [])
   \<and> ReadUnit (fresh []) = Ret (zeroUnit\<lparr>Id_unit := []\<rparr>, Some EOF, fresh [])
   \<and> ReadString (fresh [0, 0, 0, 0]) = Ret ([], None, fresh [])
   \<and> ReadUnit (fresh [0, 0, 0, 0]) = Ret (zeroUnit\<lparr>Id_unit := [], Name := []\<rparr>, Some EOF, fresh [])
   \<and> ReadString (fresh [0, 0, 0, 0, 0, 0, 0, 0, 1]) = Ret ([], None, fresh [0, 0, 0, 0, 1])
   \<and> ReadString (fresh [0, 0, 0, 0, 1]) = Ret ([], None, fresh [1])
   \<and> ReadString (fresh [1]) = Ret ([], Some ErrUnexpectedEOF, (fresh [])\<lparr>buf := [1, 0, 0, 0, 0, 0, 0, 0]\<rparr>)
   \<and> ReadUnit (fresh [0, 0, 0, 0, 0, 0, 0, 0, 1]) =
        Ret (zeroUnit\<lparr>Id_unit := [], Name := [], Type := []\<rparr>, Some ErrUnexpectedEOF,
             (fresh [])\<lparr>buf := [1, 0, 0, 0, 0, 0, 0, 0]\<rparr>)"
proof -
  have h: "w_Write (fresh []) = bufferWrite"
    by (simp add: fresh_def NewMdasIO_def)
  have l: "length (Id_unit unitA) < 2 ^ 32" "length (Name unitA) < 2 ^ 32"
    "length (Type unitA) < 2 ^ 32" "length (Id_unit unitB) < 2 ^ 32"
    "length (Name unitB) < 2 ^ 32" "length (Type unitB) < 2 ^ 32"
    by (simp_all add: unitA_def unitB_def)
  have pa: "ReadString (fresh []) = Ret ([], Some EOF, fresh [])"
    by (simp add: ReadString_def ReadInt_def readBuf_def ReadFull_def fresh_def NewMdasIO_def)
  have pb: "ReadString (fresh [0, 0, 0, 0]) = Ret ([], None, fresh [])"
    by (simp add: ReadString_def ReadInt_def readBuf_def ReadFull_def fresh_def NewMdasIO_def
        Uint32_def replicate_8_zero)
  have pc1: "ReadString (fresh [0, 0, 0, 0, 0, 0, 0, 0, 1]) = Ret ([], None, fresh [0, 0, 0, 0, 1])"
    by (simp add: ReadString_def ReadInt_def readBuf_def ReadFull_def fresh_def NewMdasIO_def
        Uint32_def replicate_8_zero)
  have pc2: "ReadString (fresh [0, 0, 0, 0, 1]) = Ret ([], None, fresh [1])"
    by (simp add: ReadString_def ReadInt_def readBuf_def ReadFull_def fresh_def NewMdasIO_def
        Uint32_def replicate_8_zero)
  have pc3: "ReadString (fresh [1]) =
      Ret ([], Some ErrUnexpectedEOF, (fresh [])\<lparr>buf := [1, 0, 0, 0, 0, 0, 0, 0]\<rparr>)"
    by (simp add: ReadString_def ReadInt_def readBuf_def ReadFull_def fresh_def NewMdasIO_def
        replicate_8_zero)
  note t = ReadUnit_three_strings [OF h l, where m' = "fresh []" and rest = "[9]"
      and ma = "fresh []" and a = "[]" and ea = EOF and ?ma1.0 = "fresh []"
      and mb = "fresh [0, 0, 0, 0]" and a' = "[]" and ?mb1.0 = "fresh []" and b' = "[]"
      and eb = EOF and ?mb2.0 = "fresh []"
      and mc = "fresh [0, 0, 0, 0, 0, 0, 0, 0, 1]" and a'' = "[]" and ?mc1.0 = "fresh [0, 0, 0, 0, 1]"
      and b'' = "[]" and ?mc2.0 = "fresh [1]" and c'' = "[]" and ec = ErrUnexpectedEOF
      and ?mc3.0 = "(fresh [])\<lparr>buf := [1, 0, 0, 0, 0, 0, 0, 0]\<rparr>"]
  show ?thesis using h l pa pb pc1 pc2 pc3 t by blast
qed

section \<open>Grids\<close>




text \<open>
  C1 (the code departs from the claim). The claim: a grid written by \<open>WriteGrid\<close> is
  read back by \<open>ReadGrid\<close> with the identical header and matrix, each row decoded
  from the bytes read for it. On the spec's own scenario (\<open>N = 2\<close>, \<open>M = 3\<close>)
  \<open>WriteGrid\<close> produces the expected 56 bytes, and \<open>ReadGrid\<close> on them panics: it reads
  the row into \<open>rowBuf\<close> and then decodes entry \<open>j\<close> from \<open>m.buf[4*j : 4*j+4]\<close>, the
  8-byte scratch buffer, whose slice is out of range at \<open>j = 2\<close>.
\<close>

theorem ReadGrid_uses_scratch_buffer:
  "(\<exists>m'. WriteGrid (fresh []) gridSpec = Some (Ret (None, m'))
         \<and> written (fresh []) m' = gridSpecBytes)
   \<and> ReadGrid (fresh gridSpecBytes) = Panic"
proof -
  have h: "w_Write (fresh []) = bufferWrite"
    by (simp add: fresh_def NewMdasIO_def)
  have b: "0 \<le> sint (M gridSpec)" "sint (M gridSpec) < 2 ^ 61"
    by (simp_all add: gridSpec_def)
  have nm: "nat (sint (M gridSpec)) = 3" "nat (sint (N gridSpec)) = 2"
    by (simp_all add: gridSpec_def)
  have "\<exists>m'. WriteGrid (fresh []) gridSpec = Some (Ret (None, m'))
         \<and> written (fresh []) m' = gridHeaderBytes gridSpec
                 @ concat (map (\<lambda>k. rowBytes (nat (sint (M gridSpec))) (Data gridSpec ! k))
                             [0..<nat (sint (N gridSpec))])"
    using WriteGrid_buffer_ok [OF h b] gridSpec_rows by blast
  then have "\<exists>m'. WriteGrid (fresh []) gridSpec = Some (Ret (None, m'))
         \<and> written (fresh []) m' = gridSpecBytes"
    by (simp only: nm gridSpec_encoding)
  then show ?thesis using ReadGrid_gridSpecBytes by blast
qed

section \<open>Short writes\<close>



section \<open>Termination of writeAll\<close>

text \<open>
  C10 as stated fails in the direction \<open>only if\<close>: against a sink whose first call
  reports zero bytes and no error and which takes everything afterwards, \<open>writeAll\<close>
  returns \<open>nil\<close> with the byte delivered, although one call of the sink neither
  returned an error nor wrote a byte.
\<close>

theorem writeAll_returns_after_a_stalled_write:
  "writeAll (NewMdasIO [] stallOnce (False, [])) [7] =
     Some (Ret (None, \<lparr>r = [], w = (True, [7]), w_Write = stallOnce, buf = replicate 8 0\<rparr>))
   \<and> stallOnce (False, []) [7] = (0, None, (True, []))"
proof -
  have 3: "writeAll x [] = Some (Ret (None, x))" for x :: "(bool \<times> byte list) MdasIO"
    by (subst writeAll.simps) simp
  have 2: "writeAll \<lparr>r = [], w = (True, []), w_Write = stallOnce, buf = replicate 8 0\<rparr> [7] =
     Some (Ret (None, \<lparr>r = [], w = (True, [7]), w_Write = stallOnce, buf = replicate 8 0\<rparr>))"
    by (subst writeAll.simps) (simp add: sinkWrite_def stallOnce_def 3)
  have 1: "writeAll (NewMdasIO [] stallOnce (False, [])) [7] =
     Some (Ret (None, \<lparr>r = [], w = (True, [7]), w_Write = stallOnce, buf = replicate 8 0\<rparr>))"
    by (subst writeAll.simps) (simp add: sinkWrite_def stallOnce_def NewMdasIO_def 2)
  show ?thesis using 1 by (simp add: stallOnce_def)
qed

text \<open>
  C10, amended. \<open>writeAll\<close> terminates whenever every call of the sink on a non-empty
  slice returns an error or writes at least one byte (a count beyond the slice ends the
  call with a panic); and against a sink that reports zero bytes and no error on every
  call, \<open>writeAll\<close> on a non-empty slice never returns.
\<close>

theorem writeAll_terminates_on_progress:
  "((\<forall>s bs. bs \<noteq> [] \<longrightarrow> (case w_Write m s bs of (n, e, s') \<Rightarrow> e \<noteq> None \<or> 0 < n))
      \<longrightarrow> (\<exists>res. writeAll m b = Some res))
   \<and> ((\<forall>s bs. \<exists>s'. w_Write mz s bs = (0, None, s')) \<and> bz \<noteq> [] \<longrightarrow> writeAll mz bz = None)"
  using writeAll_progress [of m b] writeAll_stalls [of mz bz] by blast

theorem writeAll_terminates_on_progress_witness:
  "(\<exists>res. writeAll (fresh []) [1, 2, 3] = Some res)
   \<and> (\<forall>s bs. \<exists>s'. w_Write (NewMdasIO [] zeroWrite 0) s bs = (0, None, s')) \<and> [1 :: byte] \<noteq> []
   \<and> writeAll (NewMdasIO [] zeroWrite 0) [1] = None"
proof -
  have p: "\<forall>s bs. bs \<noteq> [] \<longrightarrow>
      (case w_Write (fresh []) s bs of (n, e, s') \<Rightarrow> e \<noteq> None \<or> 0 < n)"
    by (simp add: fresh_def NewMdasIO_def bufferWrite_def)
  have z: "\<forall>s bs. \<exists>s'. w_Write (NewMdasIO [] zeroWrite 0) s bs = (0, None, s')"
    by (simp add: NewMdasIO_def zeroWrite_def)
  have ne: "[1 :: byte] \<noteq> []" by simp
  note t = writeAll_terminates_on_progress [where m = "fresh []" and b = "[1, 2, 3]"
      and mz = "NewMdasIO [] zeroWrite 0" and bz = "[1]"]
  from t p have a: "\<exists>res. writeAll (fresh []) [1, 2, 3] = Some res" by (rule conjunct1 [THEN mp])
  from t z ne have b: "writeAll (NewMdasIO [] zeroWrite 0) [1] = None"
    by (intro conjunct2 [THEN mp, OF t] conjI)
  show ?thesis by (intro conjI a z ne b)
qed

section \<open>Truncated streams\<close>




end
